theory Spec2Isabelle
  imports Complex_Main
begin

section \<open>JavaScript values\<close>

text \<open>
  The numbers the SDK computes with are the literal \<open>0\<close>, the time value of a \<open>Date\<close>
  (an integer number of milliseconds, or \<open>NaN\<close> for an invalid date) and such a time
  value divided by \<open>1000\<close>. \<open>Dec m k\<close> is the decimal number \<open>m / 10 ^ k\<close>. For an
  integer \<open>m\<close> with \<open>\<bar>m\<bar> \<le> 8640000000000000\<close> (the range of a time value) the double
  nearest to \<open>m / 1000\<close> prints as the exact decimal, because doubles of that magnitude
  are less than \<open>0.001\<close> apart; so the decimal arithmetic below agrees with the doubles
  of the program on every number it computes.
\<close>

datatype jsnum = Dec int nat | NaN

text \<open>
  A value of the program. The SDK never computes with a number it receives, it can only
  turn it into a string; so a received number is held as the string that
  \<open>Number.prototype.toString\<close> prints for it. \<open>Obj\<close> lists the members of an object, one
  entry per name.
\<close>

datatype jsval =
    Undefined
  | Null
  | Bool bool
  | Number string
  | Str string
  | Arr "jsval list"
  | Obj "(string \<times> jsval) list"

datatype error = FetchError string | TypeError string

type_synonym 'a result = "error + 'a"

subsection \<open>Number to string\<close>

definition digit_char :: "nat \<Rightarrow> char" where
  "digit_char d = ''0123456789'' ! (d mod 10)"

fun show_nat :: "nat \<Rightarrow> string" where
  "show_nat n = (if n < 10 then [digit_char n] else show_nat (n div 10) @ [digit_char (n mod 10)])"

declare show_nat.simps [simp del]

text \<open>\<open>pad_digits k n\<close>: the last \<open>k\<close> decimal digits of \<open>n\<close>, with leading zeros.\<close>

fun pad_digits :: "nat \<Rightarrow> nat \<Rightarrow> string" where
  "pad_digits 0 n = []"
| "pad_digits (Suc k) n = pad_digits k (n div 10) @ [digit_char (n mod 10)]"

definition strip_zeros :: "string \<Rightarrow> string" where
  "strip_zeros s = rev (dropWhile (\<lambda>c. c = CHR ''0'') (rev s))"

text \<open>
  \<open>Number.prototype.toString\<close> on the numbers above: the sign, the integer part, and
  the fraction without trailing zeros (no point when the fraction is zero).
\<close>

fun num_to_string :: "jsnum \<Rightarrow> string" where
  "num_to_string NaN = ''NaN''"
| "num_to_string (Dec m k) =
     (let a = nat \<bar>m\<bar>;
          frac = strip_zeros (pad_digits k (a mod 10 ^ k))
      in (if m < 0 then ''-'' else '''') @ show_nat (a div 10 ^ k)
         @ (if frac = [] then [] else ''.'' @ frac))"

declare num_to_string.simps [simp del]

text \<open>\<open>x / 1000\<close>\<close>

fun div_1000 :: "jsnum \<Rightarrow> jsnum" where
  "div_1000 NaN = NaN"
| "div_1000 (Dec m k) = Dec m (k + 3)"

text \<open>\<open>ToBoolean\<close> on a number: \<open>0\<close> and \<open>NaN\<close> are falsy.\<close>

fun num_truthy :: "jsnum \<Rightarrow> bool" where
  "num_truthy NaN = False"
| "num_truthy (Dec m k) = (m \<noteq> 0)"

text \<open>
  A \<open>Date\<close> holds its time value: milliseconds since the epoch, or \<open>NaN\<close>.
  \<open>new Date(ms)\<close> keeps an integer \<open>ms\<close> of at most \<open>8.64e15\<close> in absolute value and
  makes every other one an invalid date.
\<close>

datatype Date = Date jsnum

fun getTime :: "Date \<Rightarrow> jsnum" where
  "getTime (Date t) = t"

definition valid_time_value :: "int \<Rightarrow> bool" where
  "valid_time_value ms = (\<bar>ms\<bar> \<le> 8640000000000000)"

definition new_Date :: "int \<Rightarrow> Date" where
  "new_Date ms = (if valid_time_value ms then Date (Dec ms 0) else Date NaN)"

subsection \<open>Value to string (template literals)\<close>

text \<open>
  \<open>`${v}`\<close> is \<open>ToString(v)\<close>. An array joins the strings of its elements with commas,
  \<open>null\<close> and \<open>undefined\<close> elements counting as empty, and throws what the first
  failing element throws. A parsed object prints as \<open>[object Object]\<close> through
  \<open>Object.prototype.toString\<close>, unless it has a member \<open>toString\<close> of its own: a parsed
  member is never callable, \<open>valueOf\<close> then yields no primitive either, and the
  conversion throws a \<open>TypeError\<close>.
\<close>

fun join_strings :: "string list \<Rightarrow> string" where
  "join_strings [] = []"
| "join_strings [s] = s"
| "join_strings (s # t # ss) = s @ '','' @ join_strings (t # ss)"

fun first_error :: "'a result list \<Rightarrow> 'a list result" where
  "first_error [] = Inr []"
| "first_error (Inl e # rs) = Inl e"
| "first_error (Inr x # rs) = (case first_error rs of Inl e \<Rightarrow> Inl e | Inr xs \<Rightarrow> Inr (x # xs))"

primrec to_string :: "jsval \<Rightarrow> string result" where
  "to_string Undefined = Inr ''undefined''"
| "to_string Null = Inr ''null''"
| "to_string (Bool b) = Inr (if b then ''true'' else ''false'')"
| "to_string (Number n) = Inr n"
| "to_string (Str s) = Inr s"
| "to_string (Arr xs) =
     (case first_error (map (\<lambda>x. if x = Undefined \<or> x = Null then Inr [] else to_string x) xs) of
        Inl e \<Rightarrow> Inl e
      | Inr ss \<Rightarrow> Inr (join_strings ss))"
| "to_string (Obj kvs) =
     (if ''toString'' \<in> set (map fst kvs) then Inl (TypeError ''toString'')
      else Inr ''[object Object]'')"

subsection \<open>Property access on an untyped response\<close>

text \<open>
  \<open>response.name\<close> where \<open>response\<close> is \<open>any\<close>: reading a property of \<open>null\<close> or
  \<open>undefined\<close> throws a \<open>TypeError\<close>; an object yields the member or \<open>undefined\<close>;
  the field names the SDK reads are no properties of strings, numbers, booleans or
  arrays, which yield \<open>undefined\<close>.
\<close>

fun get_prop :: "jsval \<Rightarrow> string \<Rightarrow> jsval result" where
  "get_prop Undefined name = Inl (TypeError name)"
| "get_prop Null name = Inl (TypeError name)"
| "get_prop (Obj kvs) name = (case map_of kvs name of None \<Rightarrow> Inr Undefined | Some v \<Rightarrow> Inr v)"
| "get_prop v name = Inr Undefined"

fun has_field :: "jsval \<Rightarrow> string \<Rightarrow> bool" where
  "has_field (Obj kvs) name = (map_of kvs name \<noteq> None)"
| "has_field v name = False"

section \<open>The world: credential context and the network\<close>

record request =
  http_method :: string
  url :: string
  headers :: "(string \<times> jsval) list"
  body :: "(string \<times> jsval) list option"

text \<open>
  The module-level variables \<open>pelmClientId\<close> and \<open>pelmSecret\<close> (undefined until the
  factory runs) and the HTTP requests issued so far, oldest first.
\<close>

record world =
  pelmClientId :: jsval
  pelmSecret :: jsval
  issued :: "request list"

text \<open>
  The network is a parameter: \<open>net k r\<close> is the outcome of request \<open>r\<close> when \<open>k\<close>
  requests were issued before it, either the parsed JSON body or the rejection of
  \<open>fetch\<close> or of \<open>response.json()\<close>. A run reads \<open>net k\<close> only at the request it
  issues as number \<open>k\<close>, so a statement that fixes the answer to call \<open>k\<close> for every
  request covers every run in which call \<open>k\<close> gets that answer.
\<close>

type_synonym net = "nat \<Rightarrow> request \<Rightarrow> jsval result"

type_synonym 'a prog = "world \<Rightarrow> 'a result \<times> world"

definition andThen :: "'a prog \<Rightarrow> ('a \<Rightarrow> 'b prog) \<Rightarrow> 'b prog" where
  "andThen m f w = (case m w of (Inl e, w') \<Rightarrow> (Inl e, w') | (Inr v, w') \<Rightarrow> f v w')"

definition resolve :: "'a \<Rightarrow> 'a prog" where
  "resolve v w = (Inr v, w)"

definition settle :: "'a result \<Rightarrow> 'a prog" where
  "settle r w = (r, w)"

text \<open>\<open>fetch(url, init)\<close>: the request goes out when \<open>fetch\<close> is called.\<close>

definition fetch_start :: "net \<Rightarrow> request \<Rightarrow> world \<Rightarrow> jsval result \<times> world" where
  "fetch_start net r w = (net (length (issued w)) r, w\<lparr>issued := issued w @ [r]\<rparr>)"

section \<open>HTTP primitives\<close>

text \<open>
  The form encoder is a library outside the SDK. Every release of it appends a string
  and throws a \<open>TypeError\<close> on a plain object; what it does with any other value
  depends on the release, which is a parameter: \<open>enc v\<close> is what \<open>append\<close> throws on
  the value \<open>v\<close>, if it throws.
\<close>

type_synonym encoder = "jsval \<Rightarrow> error option"

definition FormData_append :: "encoder \<Rightarrow> (string \<times> jsval) list \<Rightarrow> string \<Rightarrow> jsval \<Rightarrow> (string \<times> jsval) list result" where
  "FormData_append enc formData key v =
     (case v of
        Str s \<Rightarrow> Inr (formData @ [(key, v)])
      | Obj kvs \<Rightarrow> Inl (TypeError ''append'')
      | _ \<Rightarrow> (case enc v of None \<Rightarrow> Inr (formData @ [(key, v)]) | Some e \<Rightarrow> Inl e))"

text \<open>
  \<open>postRequest\<close> appends the fields of \<open>body\<close> to the form in the order of the object
  literal; when \<open>append\<close> throws, the promise is rejected and \<open>fetch\<close> is not called.
  \<open>getRequest\<close> has a URL and headers only. Both await \<open>fetch\<close> and then
  \<open>response.json()\<close>.
\<close>

fun append_fields :: "encoder \<Rightarrow> (string \<times> jsval) list \<Rightarrow> (string \<times> jsval) list \<Rightarrow> (string \<times> jsval) list result" where
  "append_fields enc formData [] = Inr formData"
| "append_fields enc formData ((key, v) # rest) =
     (case FormData_append enc formData key v of
        Inl e \<Rightarrow> Inl e
      | Inr formData' \<Rightarrow> append_fields enc formData' rest)"

definition postRequest :: "encoder \<Rightarrow> net \<Rightarrow> string \<Rightarrow> (string \<times> jsval) list \<Rightarrow> (string \<times> jsval) list \<Rightarrow> jsval prog" where
  "postRequest enc net u bdy hdrs w =
     (case append_fields enc [] bdy of
        Inl e \<Rightarrow> (Inl e, w)
      | Inr formData \<Rightarrow>
          fetch_start net \<lparr>http_method = ''POST'', url = u, headers = hdrs, body = Some formData\<rparr> w)"

definition getRequest :: "net \<Rightarrow> string \<Rightarrow> (string \<times> jsval) list \<Rightarrow> jsval prog" where
  "getRequest net u hdrs =
     fetch_start net \<lparr>http_method = ''GET'', url = u, headers = hdrs, body = None\<rparr>"

section \<open>Token exchange pipeline\<close>

text \<open>
  Parameters the caller passes are strings, as declared. \<open>connectToken\<close> and
  \<open>authCode\<close> are declared \<open>string\<close> too, but the composite operation passes what it
  read from an untyped response, so they are values here. The header object of
  \<open>getAuthCode\<close> is built before \<open>postRequest\<close> is called, so a template literal that
  throws rejects the operation without any request.
\<close>

definition getConnectToken :: "encoder \<Rightarrow> net \<Rightarrow> string \<Rightarrow> jsval prog" where
  "getConnectToken enc net pelmUserId w =
     andThen
       (postRequest enc net ''https://api.pelm.com/auth/connect-token''
          [(''user_id'', Str pelmUserId)]
          [(''accept'', Str ''application/json''),
           (''pelm-client-id'', pelmClientId w),
           (''pelm-secret'', pelmSecret w)])
       (\<lambda>response. settle (get_prop response ''connect_token'')) w"

definition getAuthCode :: "encoder \<Rightarrow> net \<Rightarrow> string \<Rightarrow> string \<Rightarrow> string \<Rightarrow> jsval \<Rightarrow> jsval prog" where
  "getAuthCode enc net utilityProviderCode username password connectToken =
     andThen (settle (to_string connectToken)) (\<lambda>text.
     andThen
       (postRequest enc net ''https://api.pelm.com/connect''
          [(''utility_id'', Str utilityProviderCode),
           (''username'', Str username),
           (''password'', Str password)]
          [(''accept'', Str ''application/json''),
           (''authorization'', Str (''Bearer '' @ text))])
       (\<lambda>response. settle (get_prop response ''authorization_code'')))"

definition getAccessToken :: "encoder \<Rightarrow> net \<Rightarrow> jsval \<Rightarrow> jsval prog" where
  "getAccessToken enc net authCode w =
     andThen
       (postRequest enc net ''https://api.pelm.com/auth/token''
          [(''code'', authCode)]
          [(''accept'', Str ''application/json''),
           (''pelm-client-id'', pelmClientId w),
           (''pelm-secret'', pelmSecret w)])
       (\<lambda>response. settle (get_prop response ''access_token'')) w"

definition getOrCreatePelmToken :: "encoder \<Rightarrow> net \<Rightarrow> string \<Rightarrow> string \<Rightarrow> string \<Rightarrow> string \<Rightarrow> jsval prog" where
  "getOrCreatePelmToken enc net providerCode pelmUserId username password =
     andThen (getConnectToken enc net pelmUserId) (\<lambda>connectToken.
     andThen (getAuthCode enc net providerCode username password connectToken) (\<lambda>authCode.
     andThen (getAccessToken enc net authCode) (\<lambda>accessToken.
     resolve accessToken)))"

section \<open>Resource accessors\<close>

definition getPelmAccounts :: "net \<Rightarrow> string \<Rightarrow> jsval prog" where
  "getPelmAccounts net pelmAccessToken w =
     getRequest net ''https://api.pelm.com/accounts''
       [(''Authorization'', Str (''Bearer '' @ pelmAccessToken)),
        (''Pelm-Client-Id'', pelmClientId w),
        (''Pelm-Secret'', pelmSecret w)] w"

definition getBillsPelm :: "net \<Rightarrow> string \<Rightarrow> jsval prog" where
  "getBillsPelm net pelmAccessToken w =
     getRequest net ''https://api.pelm.com/bills''
       [(''Authorization'', Str (''Bearer '' @ pelmAccessToken)),
        (''Pelm-Client-Id'', pelmClientId w),
        (''Pelm-Secret'', pelmSecret w)] w"

subsection \<open>Bill PDFs: fan-out and join\<close>

text \<open>
  \<open>pelmBillIds.map(async (billId) => ...)\<close> runs each callback up to its first
  \<open>await\<close>, so the requests go out one after the other, in the order of the ids,
  before any response is looked at. What \<open>map\<close> returns is the list of the pending
  outcomes, one per id.
\<close>

definition pdf_request :: "world \<Rightarrow> string \<Rightarrow> string \<Rightarrow> request" where
  "pdf_request w pelmAccessToken billId =
     \<lparr>http_method = ''GET'',
      url = ''https://api.pelm.com/bills/'' @ billId @ ''/pdf'',
      headers = [(''accept'', Str ''application/pdf''),
                 (''authorization'', Str (''Bearer '' @ pelmAccessToken)),
                 (''pelm-client-id'', pelmClientId w),
                 (''pelm-secret'', pelmSecret w)],
      body = None\<rparr>"

fun map_callbacks :: "net \<Rightarrow> string \<Rightarrow> string list \<Rightarrow> world \<Rightarrow> jsval result list \<times> world" where
  "map_callbacks net pelmAccessToken [] w = ([], w)"
| "map_callbacks net pelmAccessToken (billId # rest) w =
     (case getRequest net (''https://api.pelm.com/bills/'' @ billId @ ''/pdf'')
             [(''accept'', Str ''application/pdf''),
              (''authorization'', Str (''Bearer '' @ pelmAccessToken)),
              (''pelm-client-id'', pelmClientId w),
              (''pelm-secret'', pelmSecret w)] w of
        (out, w1) \<Rightarrow>
          (case map_callbacks net pelmAccessToken rest w1 of
             (outs, w2) \<Rightarrow> (out # outs, w2)))"

text \<open>
  \<open>Promise.all\<close>: \<open>outs\<close> are the outcomes of the promises by position, \<open>vals\<close>
  the result array filled so far, and the last argument the order in which the
  promises settle (positions, earliest first; a position that never occurs belongs to
  a promise that never settles). It fulfils with the array once every slot is filled,
  rejects with the first rejection to arrive, and stays pending (\<open>None\<close>) otherwise.
\<close>

fun Promise_all :: "'a result list \<Rightarrow> 'a option list \<Rightarrow> nat list \<Rightarrow> 'a list result option" where
  "Promise_all outs vals [] =
     (case those vals of Some vs \<Rightarrow> Some (Inr vs) | None \<Rightarrow> None)"
| "Promise_all outs vals (i # arrivals) =
     (case those vals of
        Some vs \<Rightarrow> Some (Inr vs)
      | None \<Rightarrow>
          if i < length outs then
            (case outs ! i of
               Inl e \<Rightarrow> Some (Inl e)
             | Inr v \<Rightarrow> Promise_all outs (vals[i := Some v]) arrivals)
          else Promise_all outs vals arrivals)"

definition getBillPdfs :: "net \<Rightarrow> nat list \<Rightarrow> string \<Rightarrow> string list \<Rightarrow> world \<Rightarrow> jsval list result option \<times> world" where
  "getBillPdfs net arrivals pelmAccessToken pelmBillIds w =
     (case map_callbacks net pelmAccessToken pelmBillIds w of
        (outs, w') \<Rightarrow> (Promise_all outs (replicate (length outs) None) arrivals, w'))"

subsection \<open>Usage intervals\<close>

definition getPelmIntervals :: "net \<Rightarrow> string \<Rightarrow> string \<Rightarrow> Date option \<Rightarrow> Date option \<Rightarrow> jsval prog" where
  "getPelmIntervals net pelmAccountId pelmToken startDate endDate w =
     (let start = (case startDate of
                     None \<Rightarrow> Dec 0 0
                   | Some d \<Rightarrow> if num_truthy (getTime d) then div_1000 (getTime d) else Dec 0 0);
          end' = (case endDate of
                     None \<Rightarrow> Dec 0 0
                   | Some d \<Rightarrow> if num_truthy (getTime d) then div_1000 (getTime d) else Dec 0 0)
      in getRequest net ''https://api.pelm.com/intervals''
           [(''account_id'', Str pelmAccountId),
            (''start_date'', Str (num_to_string start)),
            (''end_date'', Str (num_to_string end')),
            (''authorization'', Str (''Bearer '' @ pelmToken)),
            (''pelm-client-id'', pelmClientId w),
            (''pelm-secret'', pelmSecret w)] w)"

section \<open>Usage aggregator\<close>

text \<open>
  The numbers of an interval are of any type with \<open>0\<close> and \<open>+\<close>. The field \<open>end\<close> of
  an interval is \<open>end_time\<close> here; the account of a response, which the aggregator
  does not read, stays an untyped value.
\<close>

record 'n PelmUsageInterval =
  start :: Date
  end_time :: Date
  usage :: 'n
  ghg_emissions :: 'n

record 'n IntervalsResponse =
  utility :: string
  account :: jsval
  intervals :: "'n PelmUsageInterval list"

record 'n TotalUandE =
  totalUsage :: 'n
  totalEmissions :: 'n

definition totalUsageIntervals :: "('n::{plus,zero}) IntervalsResponse \<Rightarrow> 'n TotalUandE prog" where
  "totalUsageIntervals accountsAndIntervals =
     (let totalUsage = foldl (\<lambda>accumulator interval. accumulator + usage interval) 0
                         (intervals accountsAndIntervals);
          totalEmissions = foldl (\<lambda>accumulator interval. accumulator + ghg_emissions interval) 0
                         (intervals accountsAndIntervals)
      in resolve \<lparr>totalUsage = totalUsage, totalEmissions = totalEmissions\<rparr>)"

text \<open>
  The sum of the spec, \<open>sum(x for x in xs)\<close>: start from \<open>0\<close> and add the items in
  order. No law of addition is assumed, so the sum is that of JavaScript numbers too.
\<close>

fun sum_from :: "('n::plus) \<Rightarrow> 'n list \<Rightarrow> 'n" where
  "sum_from acc [] = acc"
| "sum_from acc (x # xs) = sum_from (acc + x) xs"

definition sum_in_order :: "('n::{plus,zero}) list \<Rightarrow> 'n" where
  "sum_in_order xs = sum_from 0 xs"

section \<open>SDK factory\<close>

text \<open>
  The factory assigns the two module-level variables and returns the bundle of the
  operations above, which is the same at every call.
\<close>

definition PelmSDK :: "string \<Rightarrow> string \<Rightarrow> world \<Rightarrow> world" where
  "PelmSDK apiClientId apiSecret w = w\<lparr>pelmClientId := Str apiClientId, pelmSecret := Str apiSecret\<rparr>"

section \<open>Reading requests\<close>

text \<open>
  Header names are case-insensitive (the HTTP client stores them in lower case), so a
  header is looked up by its lower-case name.
\<close>

definition lower_char :: "char \<Rightarrow> char" where
  "lower_char c =
     (case map_of (zip ''ABCDEFGHIJKLMNOPQRSTUVWXYZ'' ''abcdefghijklmnopqrstuvwxyz'') c of
        None \<Rightarrow> c
      | Some d \<Rightarrow> d)"

definition lower :: "string \<Rightarrow> string" where
  "lower s = map lower_char s"

definition header_value :: "request \<Rightarrow> string \<Rightarrow> jsval option" where
  "header_value r name = map_of (map (\<lambda>(k, v). (lower k, v)) (headers r)) (lower name)"

text \<open>The fields of the query string of a URL, and the fields of a request's payload.\<close>

fun split_on :: "char \<Rightarrow> string \<Rightarrow> string list" where
  "split_on sep [] = [[]]"
| "split_on sep (c # cs) =
     (if c = sep then [] # split_on sep cs
      else (case split_on sep cs of [] \<Rightarrow> [[c]] | p # ps \<Rightarrow> (c # p) # ps))"

definition query_fields :: "string \<Rightarrow> (string \<times> string) list" where
  "query_fields u =
     map (\<lambda>kv. (takeWhile (\<lambda>c. c \<noteq> CHR ''='') kv, drop 1 (dropWhile (\<lambda>c. c \<noteq> CHR ''='') kv)))
       (filter (\<lambda>kv. kv \<noteq> [])
          (split_on (CHR ''&'') (drop 1 (dropWhile (\<lambda>c. c \<noteq> CHR ''?'') u))))"

definition body_fields :: "request \<Rightarrow> (string \<times> jsval) list" where
  "body_fields r = (case body r of None \<Rightarrow> [] | Some formData \<Rightarrow> formData)"

definition payload_names :: "request \<Rightarrow> string list" where
  "payload_names r = map fst (body_fields r) @ map fst (query_fields (url r))"

text \<open>The requests an operation issued: those in the world after it beyond those before it.\<close>

definition new_requests :: "world \<Rightarrow> world \<Rightarrow> request list" where
  "new_requests w w' = drop (length (issued w)) (issued w')"

section \<open>Vocabulary of the statements\<close>

text \<open>The module as loaded: no credentials yet, no request issued.\<close>

definition initial_world :: world where
  "initial_world = \<lparr>pelmClientId = Undefined, pelmSecret = Undefined, issued = []\<rparr>"

definition carries_credentials :: "string \<Rightarrow> string \<Rightarrow> request \<Rightarrow> bool" where
  "carries_credentials cid sec r =
     (header_value r ''pelm-client-id'' = Some (Str cid) \<and> header_value r ''pelm-secret'' = Some (Str sec))"

text \<open>
  What the requests of the SDK carry: the request to the connect endpoint has no
  credential header, every other request has both.
\<close>

definition credential_policy :: "string \<Rightarrow> string \<Rightarrow> request \<Rightarrow> bool" where
  "credential_policy cid sec r =
     (if url r = ''https://api.pelm.com/connect''
      then header_value r ''pelm-client-id'' = None \<and> header_value r ''pelm-secret'' = None
      else carries_credentials cid sec r)"

text \<open>
  The worlds in which an operation runs after the factory was called with \<open>cid\<close> and
  \<open>sec\<close>: the world the factory leaves, and every world an operation of the bundle
  leaves when started in such a world. (\<open>totalUsageIntervals\<close> returns the world it
  was given, so it needs no rule.)
\<close>

inductive after_factory :: "string \<Rightarrow> string \<Rightarrow> world \<Rightarrow> bool" for cid sec where
  factory: "after_factory cid sec (PelmSDK cid sec w)"
| connect_token: "after_factory cid sec w \<Longrightarrow> after_factory cid sec (snd (getConnectToken enc net u w))"
| auth_code: "after_factory cid sec w \<Longrightarrow> after_factory cid sec (snd (getAuthCode enc net pc un pw ct w))"
| access_token: "after_factory cid sec w \<Longrightarrow> after_factory cid sec (snd (getAccessToken enc net ac w))"
| token: "after_factory cid sec w \<Longrightarrow> after_factory cid sec (snd (getOrCreatePelmToken enc net pc u un pw w))"
| accounts: "after_factory cid sec w \<Longrightarrow> after_factory cid sec (snd (getPelmAccounts net t w))"
| bills: "after_factory cid sec w \<Longrightarrow> after_factory cid sec (snd (getBillsPelm net t w))"
| pdfs: "after_factory cid sec w \<Longrightarrow> after_factory cid sec (snd (getBillPdfs net arrivals t ids w))"
| intervals: "after_factory cid sec w \<Longrightarrow> after_factory cid sec (snd (getPelmIntervals net a t sd ed w))"


text \<open>
  The three requests of the token pipeline, as the endpoint table of the spec has them
  (with the \<open>accept\<close> header the SDK adds).
\<close>

definition connect_token_request :: "world \<Rightarrow> string \<Rightarrow> request" where
  "connect_token_request w pelmUserId =
     \<lparr>http_method = ''POST'',
      url = ''https://api.pelm.com/auth/connect-token'',
      headers = [(''accept'', Str ''application/json''),
                 (''pelm-client-id'', pelmClientId w),
                 (''pelm-secret'', pelmSecret w)],
      body = Some [(''user_id'', Str pelmUserId)]\<rparr>"

definition connect_request :: "string \<Rightarrow> string \<Rightarrow> string \<Rightarrow> string \<Rightarrow> request" where
  "connect_request utilityProviderCode username password connectToken =
     \<lparr>http_method = ''POST'',
      url = ''https://api.pelm.com/connect'',
      headers = [(''accept'', Str ''application/json''),
                 (''authorization'', Str (''Bearer '' @ connectToken))],
      body = Some [(''utility_id'', Str utilityProviderCode),
                   (''username'', Str username),
                   (''password'', Str password)]\<rparr>"

definition token_request :: "world \<Rightarrow> string \<Rightarrow> request" where
  "token_request w authCode =
     \<lparr>http_method = ''POST'',
      url = ''https://api.pelm.com/auth/token'',
      headers = [(''accept'', Str ''application/json''),
                 (''pelm-client-id'', pelmClientId w),
                 (''pelm-secret'', pelmSecret w)],
      body = Some [(''code'', Str authCode)]\<rparr>"

subsection \<open>Reading a decimal numeral\<close>

text \<open>
  What a string of digits, with an optional sign and an optional fraction, denotes,
  read by position: the last digit of the integer part counts units, the first digit
  of the fraction tenths. This is independent of how the program prints a number.
\<close>

definition digit_value :: "char \<Rightarrow> nat option" where
  "digit_value c = map_of (zip ''0123456789'' [0, 1, 2, 3, 4, 5, 6, 7, 8, 9]) c"

fun units_first_value :: "string \<Rightarrow> nat option" where
  "units_first_value [] = Some 0"
| "units_first_value (c # cs) =
     (case (digit_value c, units_first_value cs) of
        (Some d, Some v) \<Rightarrow> Some (d + 10 * v)
      | _ \<Rightarrow> None)"

definition nat_value :: "string \<Rightarrow> nat option" where
  "nat_value s = (if s = [] then None else units_first_value (rev s))"

fun frac_value :: "string \<Rightarrow> rat option" where
  "frac_value [] = Some 0"
| "frac_value (c # cs) =
     (case (digit_value c, frac_value cs) of
        (Some d, Some v) \<Rightarrow> Some ((of_nat d + v) / 10)
      | _ \<Rightarrow> None)"

definition int_part :: "string \<Rightarrow> string" where
  "int_part s = takeWhile (\<lambda>c. c \<noteq> CHR ''.'') (if take 1 s = ''-'' then drop 1 s else s)"

definition frac_part :: "string \<Rightarrow> string" where
  "frac_part s = dropWhile (\<lambda>c. c \<noteq> CHR ''.'') (if take 1 s = ''-'' then drop 1 s else s)"

definition decimal_value :: "string \<Rightarrow> rat option" where
  "decimal_value s =
     (case (nat_value (int_part s),
            if frac_part s = [] then Some 0
            else if tl (frac_part s) = [] then None
            else frac_value (tl (frac_part s))) of
        (Some i, Some f) \<Rightarrow> Some ((if take 1 s = ''-'' then - 1 else 1) * (of_nat i + f))
      | _ \<Rightarrow> None)"

text \<open>
  The one numeral that JavaScript prints for a value: no leading zero before another
  digit, no trailing zero in the fraction, no sign on zero.
\<close>

definition canonical_decimal :: "string \<Rightarrow> bool" where
  "canonical_decimal s =
     ((int_part s = ''0'' \<or> take 1 (int_part s) \<noteq> ''0'')
      \<and> (frac_part s = [] \<or> last (frac_part s) \<noteq> CHR ''0'')
      \<and> \<not> (take 1 s = ''-'' \<and> decimal_value s = Some 0))"

subsection \<open>Networks, encoders and a world for the examples\<close>

definition example_net :: net where
  "example_net k r =
     Inr (Obj [(''connect_token'', Str ''ct-1''),
               (''authorization_code'', Str ''ac-2''),
               (''access_token'', Str ''at-3'')])"

definition echo_net :: net where
  "echo_net k r = Inr (Str (url r))"

definition error_net :: net where
  "error_net k r = Inr (Obj [(''error'', Str ''unauthorized'')])"

definition flaky_net :: net where
  "flaky_net k r = (if k = 1 then Inl (FetchError ''socket hang up'') else Inr (Str (url r)))"


definition null_net :: net where
  "null_net k r = Inr Null"


definition lenient_encoder :: encoder where
  "lenient_encoder v = None"

definition example_world :: world where
  "example_world = PelmSDK ''client-1'' ''secret-1'' initial_world"

section \<open>Usage aggregator: totals\<close>

lemma foldl_plus_sum_from: "foldl (\<lambda>a i. a + f i) acc xs = sum_from acc (map f xs)"
  by (induction xs arbitrary: acc) simp_all

text \<open>With exact arithmetic the sum in order is the usual sum of a list.\<close>

lemma sum_from_sum_list: "sum_from acc xs = (acc :: 'n :: monoid_add) + sum_list xs"
  by (induction xs arbitrary: acc) (simp_all add: add.assoc)

lemma sum_in_order_sum_list: "sum_in_order xs = (sum_list xs :: 'n :: monoid_add)"
  by (simp add: sum_in_order_def sum_from_sum_list)

text \<open>
  Claim C2. For every intervals response, \<open>totalUsageIntervals\<close> returns the record
  whose \<open>totalUsage\<close> is the sum of the \<open>usage\<close> fields of its intervals and whose
  \<open>totalEmissions\<close> is the sum of their \<open>ghg_emissions\<close> fields; on an empty
  interval list it returns \<open>{totalUsage: 0, totalEmissions: 0}\<close>. It never fails and
  leaves the world (credentials, requests issued) as it was.
\<close>

theorem totalUsageIntervals_sums:
  "totalUsageIntervals r w =
     (Inr \<lparr>totalUsage = sum_in_order (map usage (intervals r)),
           totalEmissions = sum_in_order (map ghg_emissions (intervals r))\<rparr>, w)
   \<and> totalUsageIntervals (r\<lparr>intervals := []\<rparr>) w = (Inr \<lparr>totalUsage = 0, totalEmissions = 0\<rparr>, w)"
  by (simp add: totalUsageIntervals_def resolve_def sum_in_order_def foldl_plus_sum_from)

section \<open>Requests and headers\<close>

lemma lower_names [simp]:
  "lower ''accept'' = ''accept''"
  "lower ''authorization'' = ''authorization''"
  "lower ''Authorization'' = ''authorization''"
  "lower ''pelm-client-id'' = ''pelm-client-id''"
  "lower ''Pelm-Client-Id'' = ''pelm-client-id''"
  "lower ''pelm-secret'' = ''pelm-secret''"
  "lower ''Pelm-Secret'' = ''pelm-secret''"
  "lower ''account_id'' = ''account_id''"
  "lower ''start_date'' = ''start_date''"
  "lower ''end_date'' = ''end_date''"
  by (simp_all add: lower_def lower_char_def)

lemma new_requests_append [simp]:
  "new_requests w (w'\<lparr>issued := issued w @ rs\<rparr>) = rs"
  by (simp add: new_requests_def)

lemma fetch_start_snd [simp]: "snd (fetch_start net r w) = w\<lparr>issued := issued w @ [r]\<rparr>"
  by (simp add: fetch_start_def)

lemma fetch_start_fst [simp]: "fst (fetch_start net r w) = net (length (issued w)) r"
  by (simp add: fetch_start_def)

lemma after_factory_example: "after_factory ''client-1'' ''secret-1'' example_world"
  unfolding example_world_def by (rule after_factory.factory)

lemma example_world_simps:
  "pelmClientId example_world = Str ''client-1''"
  "pelmSecret example_world = Str ''secret-1''"
  "issued example_world = []"
  by (simp_all add: example_world_def PelmSDK_def initial_world_def)

section \<open>Token exchange pipeline: the calls\<close>


lemma get_prop_absent:
  "v \<noteq> Null \<Longrightarrow> v \<noteq> Undefined \<Longrightarrow> \<not> has_field v name \<Longrightarrow> get_prop v name = Inr Undefined"
  by (cases v) (auto split: option.splits)

lemma new_requests_same [simp]: "new_requests w w = []"
  by (simp add: new_requests_def)

lemma getConnectToken_run:
  "getConnectToken enc net u w =
     (case net (length (issued w)) (connect_token_request w u) of
        Inl e \<Rightarrow> Inl e
      | Inr response \<Rightarrow> get_prop response ''connect_token'',
      w\<lparr>issued := issued w @ [connect_token_request w u]\<rparr>)"
  by (simp add: getConnectToken_def andThen_def postRequest_def FormData_append_def
        fetch_start_def settle_def connect_token_request_def split: sum.splits)

lemma getAuthCode_throws:
  "to_string ct = Inl e \<Longrightarrow> getAuthCode enc net pc un pw ct w = (Inl e, w)"
  by (simp add: getAuthCode_def andThen_def settle_def)

lemma getAuthCode_run:
  "to_string ct = Inr str \<Longrightarrow>
   getAuthCode enc net pc un pw ct w =
     (case net (length (issued w)) (connect_request pc un pw str) of
        Inl e \<Rightarrow> Inl e
      | Inr response \<Rightarrow> get_prop response ''authorization_code'',
      w\<lparr>issued := issued w @ [connect_request pc un pw str]\<rparr>)"
  by (simp add: getAuthCode_def andThen_def postRequest_def FormData_append_def
        fetch_start_def settle_def connect_request_def split: sum.splits)


lemma getAccessToken_run:
  "getAccessToken enc net (Str ac) w =
     (case net (length (issued w)) (token_request w ac) of
        Inl e \<Rightarrow> Inl e
      | Inr response \<Rightarrow> get_prop response ''access_token'',
      w\<lparr>issued := issued w @ [token_request w ac]\<rparr>)"
  by (simp add: getAccessToken_def andThen_def postRequest_def FormData_append_def
        fetch_start_def settle_def token_request_def split: sum.splits)

text \<open>
  Claim C4, as the code has it. For each step of the token pipeline (\<open>getConnectToken\<close>,
  \<open>getAuthCode\<close>, \<open>getAccessToken\<close>, called with strings as declared): when the call is
  answered by a JSON value other than \<open>null\<close> that has no member \<open>connect_token\<close>,
  \<open>authorization_code\<close>, \<open>access_token\<close> respectively, the operation returns
  \<open>undefined\<close> and signals no error. (A parsed body is never \<open>undefined\<close>.)
\<close>

theorem missing_field_yields_undefined:
  assumes "v \<noteq> Null" and "v \<noteq> Undefined"
  shows "(net (length (issued w)) (connect_token_request w pelmUserId) = Inr v
            \<and> \<not> has_field v ''connect_token''
          \<longrightarrow> getConnectToken enc net pelmUserId w =
                (Inr Undefined, w\<lparr>issued := issued w @ [connect_token_request w pelmUserId]\<rparr>))
       \<and> (net (length (issued w)) (connect_request utilityProviderCode username password connectToken) = Inr v
            \<and> \<not> has_field v ''authorization_code''
          \<longrightarrow> getAuthCode enc net utilityProviderCode username password (Str connectToken) w =
                (Inr Undefined,
                 w\<lparr>issued := issued w @ [connect_request utilityProviderCode username password connectToken]\<rparr>))
       \<and> (net (length (issued w)) (token_request w authCode) = Inr v
            \<and> \<not> has_field v ''access_token''
          \<longrightarrow> getAccessToken enc net (Str authCode) w =
                (Inr Undefined, w\<lparr>issued := issued w @ [token_request w authCode]\<rparr>))"
  using assms
  by (simp add: getConnectToken_run getAuthCode_run getAccessToken_run get_prop_absent)

theorem missing_field_yields_undefined_witness:
  "fst (getConnectToken lenient_encoder error_net ''user-1'' example_world) = Inr Undefined
   \<and> fst (getAuthCode lenient_encoder error_net ''PGE'' ''bob'' ''hunter2'' (Str ''ct-1'') example_world)
       = Inr Undefined
   \<and> fst (getAccessToken lenient_encoder error_net (Str ''ac-2'') example_world) = Inr Undefined"
proof -
  let ?v = "Obj [(''error'', Str ''unauthorized'')]"
  have h: "?v \<noteq> Null" "?v \<noteq> Undefined" by simp_all
  have n: "error_net k r = Inr ?v" for k r
    by (simp add: error_net_def)
  from missing_field_yields_undefined [where v = ?v and net = error_net and enc = lenient_encoder
         and w = example_world and pelmUserId = "''user-1''" and utilityProviderCode = "''PGE''"
         and username = "''bob''" and password = "''hunter2''"
         and connectToken = "''ct-1''" and authCode = "''ac-2''", OF h]
  show ?thesis by (simp add: n)
qed

text \<open>
  Claim C4 as stated fails on a body \<open>null\<close>: it has no member, and reading the member
  throws.
\<close>

theorem null_body_raises_TypeError:
  "null_net (length (issued example_world)) (connect_token_request example_world ''user-1'') = Inr Null
   \<and> \<not> has_field Null ''connect_token''
   \<and> getConnectToken lenient_encoder null_net ''user-1'' example_world =
       (Inl (TypeError ''connect_token''),
        example_world\<lparr>issued := issued example_world @ [connect_token_request example_world ''user-1'']\<rparr>)"
  by (simp add: getConnectToken_run null_net_def)

text \<open>The other two steps throw on a \<open>null\<close> body in the same way.\<close>

lemma null_response_throws:
  assumes "\<forall>r. net (length (issued w)) r = Inr Null"
  shows "fst (getConnectToken enc net pelmUserId w) = Inl (TypeError ''connect_token'')"
    and "fst (getAuthCode enc net utilityProviderCode username password (Str connectToken) w)
           = Inl (TypeError ''authorization_code'')"
    and "fst (getAccessToken enc net (Str authCode) w) = Inl (TypeError ''access_token'')"
  using assms by (simp_all add: getConnectToken_run getAuthCode_run getAccessToken_run)




section \<open>Usage intervals: the dates sent\<close>

lemma digit_char_0: "digit_char 0 = CHR ''0''"
  by (simp add: digit_char_def)

lemma pad_digits_0: "pad_digits k 0 = replicate k (CHR ''0'')"
  by (induction k) (simp_all add: digit_char_0 replicate_append_same)

lemma strip_zeros_replicate: "strip_zeros (replicate k (CHR ''0'')) = []"
  by (simp add: strip_zeros_def)

lemma show_nat_0: "show_nat 0 = ''0''"
  by (subst show_nat.simps) (simp add: digit_char_0)

lemma num_to_string_zero: "num_to_string (Dec 0 k) = ''0''"
  by (simp add: num_to_string.simps Let_def pad_digits_0 strip_zeros_def show_nat_0)

text \<open>
  Claim C7. For every account id and token, \<open>getPelmIntervals\<close> called without
  \<open>startDate\<close> and without \<open>endDate\<close> sends one request, with \<open>start_date\<close> equal
  to the string \<open>"0"\<close> and \<open>end_date\<close> equal to the string \<open>"0"\<close>.
\<close>

theorem getPelmIntervals_default_dates: "\<exists>r. new_requests w (snd (getPelmIntervals net a t None None w)) = [r]
   \<and> header_value r ''start_date'' = Some (Str ''0'')
   \<and> header_value r ''end_date'' = Some (Str ''0'')"
  by (simp add: getPelmIntervals_def getRequest_def header_value_def num_to_string_zero)

subsection \<open>What the program prints is the numeral of the number\<close>

lemma digit_cases:
  "d mod 10 \<in> {0, 1, 2, 3, 4, 5, 6, 7, 8, 9 :: nat}"
proof -
  have "d mod 10 < 10" by simp
  then have "d mod 10 = 0 \<or> d mod 10 = 1 \<or> d mod 10 = 2 \<or> d mod 10 = 3 \<or> d mod 10 = 4
      \<or> d mod 10 = 5 \<or> d mod 10 = 6 \<or> d mod 10 = 7 \<or> d mod 10 = 8 \<or> d mod 10 = 9"
    by arith
  then show ?thesis by blast
qed

lemma digit_value_digit_char: "digit_value (digit_char d) = Some (d mod 10)"
  using digit_cases [of d] unfolding digit_char_def digit_value_def
  by (elim insertE emptyE) simp_all

lemma digit_char_not_point: "digit_char d \<noteq> CHR ''.''" and digit_char_not_minus: "digit_char d \<noteq> CHR ''-''"
  using digit_cases [of d] unfolding digit_char_def
  by (elim insertE emptyE; simp)+

lemma digit_char_zero_iff: "digit_char d = CHR ''0'' \<longleftrightarrow> d mod 10 = 0"
  using digit_cases [of d] unfolding digit_char_def
  by (elim insertE emptyE) simp_all

(* integer part *)

lemma show_nat_digits: "c \<in> set (show_nat n) \<Longrightarrow> \<exists>d. c = digit_char d"
proof (induction n rule: show_nat.induct)
  case (1 n)
  show ?case
  proof (cases "n < 10")
    case True
    with "1.prems" show ?thesis by (subst (asm) show_nat.simps) auto
  next
    case False
    with "1.prems" have "c \<in> set (show_nat (n div 10)) \<or> c = digit_char (n mod 10)"
      by (subst (asm) show_nat.simps) auto
    with "1.IH" False show ?thesis by blast
  qed
qed

lemma show_nat_no_point: "CHR ''.'' \<notin> set (show_nat n)"
proof
  assume "CHR ''.'' \<in> set (show_nat n)"
  then obtain d where "CHR ''.'' = digit_char d" using show_nat_digits by blast
  with digit_char_not_point [of d] show False by simp
qed

lemma show_nat_no_minus: "CHR ''-'' \<notin> set (show_nat n)"
proof
  assume "CHR ''-'' \<in> set (show_nat n)"
  then obtain d where "CHR ''-'' = digit_char d" using show_nat_digits by blast
  with digit_char_not_minus [of d] show False by simp
qed

lemma show_nat_nonempty: "show_nat n \<noteq> []"
  by (subst show_nat.simps) simp

lemma units_first_show_nat: "units_first_value (rev (show_nat n)) = Some n"
proof (induction n rule: show_nat.induct)
  case (1 n)
  show ?case
  proof (cases "n < 10")
    case True
    then show ?thesis
      by (subst show_nat.simps) (simp add: digit_value_digit_char)
  next
    case False
    with "1.IH" show ?thesis
      by (subst show_nat.simps) (simp add: digit_value_digit_char)
  qed
qed

lemma nat_value_show_nat: "nat_value (show_nat n) = Some n"
  by (simp add: nat_value_def show_nat_nonempty units_first_show_nat)

lemma show_nat_hd: "0 < n \<Longrightarrow> hd (show_nat n) \<noteq> CHR ''0''"
proof (induction n rule: show_nat.induct)
  case (1 n)
  show ?case
  proof (cases "n < 10")
    case True
    with "1.prems" show ?thesis
      by (subst show_nat.simps) (simp add: digit_char_zero_iff)
  next
    case False
    then have "0 < n div 10" by simp
    with "1.IH" False have "hd (show_nat (n div 10)) \<noteq> CHR ''0''" by simp
    with False show ?thesis
      by (subst show_nat.simps) (simp add: show_nat_nonempty)
  qed
qed

lemma show_nat_canonical: "show_nat n = ''0'' \<or> take 1 (show_nat n) \<noteq> ''0''"
proof (cases "n = 0")
  case True
  then show ?thesis by (subst show_nat.simps) (simp add: digit_char_def)
next
  case False
  then have "hd (show_nat n) \<noteq> CHR ''0''" by (simp add: show_nat_hd)
  with show_nat_nonempty [of n] show ?thesis
    by (cases "show_nat n") simp_all
qed

(* fraction *)

lemma frac_value_snoc_zero: "frac_value (ds @ ''0'') = frac_value ds"
  by (induction ds) (simp_all add: digit_value_def split: option.splits)

lemma strip_zeros_snoc:
  "strip_zeros (ds @ [c]) = (if c = CHR ''0'' then strip_zeros ds else ds @ [c])"
  by (simp add: strip_zeros_def)

lemma frac_value_strip_zeros: "frac_value (strip_zeros ds) = frac_value ds"
proof (induction ds rule: rev_induct)
  case Nil
  then show ?case by (simp add: strip_zeros_def)
next
  case (snoc c ds)
  then show ?case by (simp add: strip_zeros_snoc frac_value_snoc_zero)
qed

lemma strip_zeros_last: "strip_zeros ds \<noteq> [] \<Longrightarrow> last (strip_zeros ds) \<noteq> CHR ''0''"
proof (induction ds rule: rev_induct)
  case Nil
  then show ?case by (simp add: strip_zeros_def)
next
  case (snoc c ds)
  show ?case
  proof (cases "c = CHR ''0''")
    case True
    with snoc show ?thesis by (simp add: strip_zeros_snoc)
  next
    case False
    then show ?thesis by (simp add: strip_zeros_snoc)
  qed
qed

lemma strip_zeros_subset: "set (strip_zeros ds) \<subseteq> set ds"
  unfolding strip_zeros_def by (metis set_dropWhileD set_rev subsetI)

lemma pad_digits_digits: "c \<in> set (pad_digits k n) \<Longrightarrow> \<exists>d. c = digit_char d"
  by (induction k arbitrary: n) auto

lemma length_pad_digits: "length (pad_digits k n) = k"
  by (induction k arbitrary: n) simp_all

lemma frac_value_snoc:
  "frac_value ds = Some v \<Longrightarrow>
   frac_value (ds @ [digit_char d]) = Some (v + of_nat (d mod 10) / 10 ^ (length ds + 1))"
proof (induction ds arbitrary: v)
  case Nil
  then show ?case by (simp add: digit_value_digit_char)
next
  case (Cons c ds)
  from Cons.prems obtain x where c: "digit_value c = Some x"
    by (cases "digit_value c") simp_all
  from Cons.prems c obtain v' where ds: "frac_value ds = Some v'"
    by (cases "frac_value ds") simp_all
  from Cons.prems c ds have v: "v = (of_nat x + v') / 10"
    by simp
  from Cons.IH [OF ds]
  have "frac_value ((c # ds) @ [digit_char d]) =
          Some ((of_nat x + (v' + of_nat (d mod 10) / 10 ^ (length ds + 1))) / 10)"
    by (simp add: c)
  also have "(of_nat x + (v' + of_nat (d mod 10) / 10 ^ (length ds + 1))) / 10
               = (v + of_nat (d mod 10) / 10 ^ (length (c # ds) + 1) :: rat)"
    unfolding v by (simp add: add_divide_distrib)
  finally show ?case .
qed

lemma frac_value_pad_digits:
  "frac_value (pad_digits k n) = Some (of_nat (n mod 10 ^ k) / 10 ^ k)"
proof (induction k arbitrary: n)
  case 0
  then show ?case by simp
next
  case (Suc k)
  have split: "n mod 10 ^ Suc k = 10 * ((n div 10) mod 10 ^ k) + n mod 10"
    by (simp add: mod_mult2_eq)
  have "frac_value (pad_digits (Suc k) n) =
          Some (of_nat ((n div 10) mod 10 ^ k) / 10 ^ k + of_nat (n mod 10) / 10 ^ (k + 1))"
    using frac_value_snoc [OF Suc.IH [of "n div 10"], of "n mod 10"]
    by (simp add: length_pad_digits)
  also have "of_nat ((n div 10) mod 10 ^ k) / 10 ^ k + of_nat (n mod 10) / 10 ^ (k + 1)
               = (of_nat (n mod 10 ^ Suc k) / 10 ^ Suc k :: rat)"
    unfolding split by (simp add: field_simps)
  finally show ?case .
qed


lemma show_nat_take1: "take 1 (show_nat n @ rest) \<noteq> ''-''"
proof -
  obtain c cs where s: "show_nat n = c # cs"
    using show_nat_nonempty [of n] by (cases "show_nat n") simp_all
  then have "c \<in> set (show_nat n)" by simp
  with show_nat_no_minus [of n] have "c \<noteq> CHR ''-''" by blast
  with s show ?thesis by simp
qed

lemma rendering_parts:
  fixes m :: int and k :: nat
  defines "a \<equiv> nat \<bar>m\<bar>"
  defines "fr \<equiv> strip_zeros (pad_digits k (a mod 10 ^ k))"
  defines "s \<equiv> num_to_string (Dec m k)"
  shows "take 1 s = ''-'' \<longleftrightarrow> m < 0"
    and "int_part s = show_nat (a div 10 ^ k)"
    and "frac_part s = (if fr = [] then [] else ''.'' @ fr)"
proof -
  let ?ip = "show_nat (a div 10 ^ k)"
  let ?tail = "if fr = [] then [] else ''.'' @ fr"
  have s: "s = (if m < 0 then ''-'' else []) @ ?ip @ ?tail"
    unfolding s_def fr_def a_def by (simp add: num_to_string.simps Let_def)
  show neg: "take 1 s = ''-'' \<longleftrightarrow> m < 0"
    using show_nat_take1 [of "a div 10 ^ k" ?tail] unfolding s by simp
  have u: "(if take 1 s = ''-'' then drop 1 s else s) = ?ip @ ?tail"
    unfolding neg unfolding s by simp
  have digits: "\<And>c. c \<in> set ?ip \<Longrightarrow> c \<noteq> CHR ''.''"
    using show_nat_no_point by blast
  show "int_part s = ?ip"
    unfolding int_part_def u using digits by (simp add: takeWhile_append2)
  show "frac_part s = ?tail"
    unfolding frac_part_def u using digits by (simp add: dropWhile_append2)
qed

lemma frac_rendering_value:
  "frac_value (strip_zeros (pad_digits k n)) = Some (of_nat (n mod 10 ^ k) / 10 ^ k)"
  by (simp add: frac_value_strip_zeros frac_value_pad_digits)

theorem decimal_value_num_to_string:
  "decimal_value (num_to_string (Dec m k)) = Some (of_int m / 10 ^ k)"
proof -
  let ?a = "nat \<bar>m\<bar>"
  let ?fr = "strip_zeros (pad_digits k (?a mod 10 ^ k))"
  let ?s = "num_to_string (Dec m k)"
  note parts = rendering_parts [of m k]
  have f: "(if frac_part ?s = [] then Some 0
            else if tl (frac_part ?s) = [] then None
            else frac_value (tl (frac_part ?s))) = Some (of_nat (?a mod 10 ^ k) / 10 ^ k :: rat)"
  proof (cases "?fr = []")
    case True
    from frac_rendering_value [of k "?a mod 10 ^ k"] True
    have "(of_nat (?a mod 10 ^ k) / 10 ^ k :: rat) = 0" by simp
    with True show ?thesis unfolding parts(3) by simp
  next
    case False
    with frac_rendering_value [of k "?a mod 10 ^ k"] show ?thesis
      unfolding parts(3) by simp
  qed
  have total: "(of_nat (?a div 10 ^ k) + of_nat (?a mod 10 ^ k) / 10 ^ k :: rat) = of_nat ?a / 10 ^ k"
  proof -
    have "?a = (?a div 10 ^ k) * 10 ^ k + ?a mod 10 ^ k"
      by (rule div_mult_mod_eq [symmetric])
    then have "(of_nat ?a :: rat) = of_nat (?a div 10 ^ k) * 10 ^ k + of_nat (?a mod 10 ^ k)"
      by (metis of_nat_add of_nat_mult of_nat_numeral of_nat_power)
    then show ?thesis by (simp add: field_simps)
  qed
  have v: "decimal_value ?s = Some ((if m < 0 then - 1 else 1) * (of_nat ?a / 10 ^ k))"
    unfolding decimal_value_def f parts(1) parts(2) nat_value_show_nat
    by (simp add: total)
  show ?thesis
  proof (cases "m < 0")
    case True
    then have "(of_nat ?a :: rat) = - of_int m" by simp
    with True v show ?thesis by simp
  next
    case False
    then have "(of_nat ?a :: rat) = of_int m" by simp
    with False v show ?thesis by simp
  qed
qed

theorem canonical_num_to_string: "canonical_decimal (num_to_string (Dec m k))"
proof -
  let ?a = "nat \<bar>m\<bar>"
  let ?fr = "strip_zeros (pad_digits k (?a mod 10 ^ k))"
  let ?s = "num_to_string (Dec m k)"
  note parts = rendering_parts [of m k]
  have 1: "int_part ?s = ''0'' \<or> take 1 (int_part ?s) \<noteq> ''0''"
    unfolding parts(2) by (rule show_nat_canonical)
  have 2: "frac_part ?s = [] \<or> last (frac_part ?s) \<noteq> CHR ''0''"
    unfolding parts(3) using strip_zeros_last [of "pad_digits k (?a mod 10 ^ k)"] by simp
  have 3: "\<not> (take 1 ?s = ''-'' \<and> decimal_value ?s = Some 0)"
    unfolding parts(1) decimal_value_num_to_string by simp
  from 1 2 3 show ?thesis unfolding canonical_decimal_def by blast
qed

text \<open>
  Claim C8. For every time value \<open>ms\<close> of a \<open>Date\<close>, \<open>getPelmIntervals\<close> called with
  \<open>startDate = new Date(ms)\<close> sends \<open>start_date\<close> equal to the decimal rendering of
  \<open>ms / 1000\<close>: the canonical decimal numeral that denotes the rational number
  \<open>ms / 1000\<close>; and symmetrically for \<open>endDate\<close> and \<open>end_date\<close>.
\<close>

theorem getPelmIntervals_date_seconds:
  assumes "valid_time_value ms"
  shows "(\<exists>r s. new_requests w (snd (getPelmIntervals net a t (Some (new_Date ms)) endDate w)) = [r]
            \<and> header_value r ''start_date'' = Some (Str s)
            \<and> canonical_decimal s \<and> decimal_value s = Some (of_int ms / 1000))
       \<and> (\<exists>r s. new_requests w (snd (getPelmIntervals net a t startDate (Some (new_Date ms)) w)) = [r]
            \<and> header_value r ''end_date'' = Some (Str s)
            \<and> canonical_decimal s \<and> decimal_value s = Some (of_int ms / 1000))"
proof -
  let ?sent = "if ms = 0 then Dec 0 0 else Dec ms 3"
  have sent: "(if num_truthy (getTime (new_Date ms)) then div_1000 (getTime (new_Date ms)) else Dec 0 0)
                = ?sent"
    using assms by (simp add: new_Date_def)
  have denotes: "decimal_value (num_to_string ?sent) = Some (of_int ms / 1000)"
    by (simp add: decimal_value_num_to_string)
  have canonical: "canonical_decimal (num_to_string ?sent)"
    by (simp add: canonical_num_to_string)
  show ?thesis
    by (simp add: getPelmIntervals_def getRequest_def header_value_def sent denotes canonical)
qed

theorem getPelmIntervals_date_seconds_witness:
  "valid_time_value 1500
   \<and> (\<exists>r s. new_requests example_world
              (snd (getPelmIntervals example_net ''acct-1'' ''tok'' (Some (new_Date 1500)) None
                     example_world)) = [r]
            \<and> header_value r ''start_date'' = Some (Str s)
            \<and> canonical_decimal s \<and> decimal_value s = Some (of_int 1500 / 1000))
   \<and> (\<exists>r s. new_requests example_world
              (snd (getPelmIntervals example_net ''acct-1'' ''tok'' None (Some (new_Date 1500))
                     example_world)) = [r]
            \<and> header_value r ''end_date'' = Some (Str s)
            \<and> canonical_decimal s \<and> decimal_value s = Some (of_int 1500 / 1000))"
proof -
  have v: "valid_time_value 1500" by (simp add: valid_time_value_def)
  from getPelmIntervals_date_seconds [OF v, where w = example_world and net = example_net
         and a = "''acct-1''" and t = "''tok''" and endDate = None and startDate = None]
  show ?thesis using v by blast
qed

text \<open>One and a half seconds are sent as \<open>"1.5"\<close>, which reads as three halves.\<close>

lemma date_seconds_example:
  "new_requests example_world
       (snd (getPelmIntervals example_net ''acct-1'' ''tok'' (Some (new_Date 1500)) None example_world)) =
     [\<lparr>http_method = ''GET'', url = ''https://api.pelm.com/intervals'',
       headers = [(''account_id'', Str ''acct-1''), (''start_date'', Str ''1.5''), (''end_date'', Str ''0''),
                  (''authorization'', Str ''Bearer tok''),
                  (''pelm-client-id'', Str ''client-1''), (''pelm-secret'', Str ''secret-1'')],
       body = None\<rparr>]
   \<and> decimal_value ''1.5'' = Some (3 / 2)"
proof -
  have s: "num_to_string (Dec 1500 3) = ''1.5''" by code_simp
  have v: "decimal_value ''1.5'' = Some (3 / 2)"
    by (simp add: decimal_value_def int_part_def frac_part_def nat_value_def digit_value_def)
  show ?thesis
    by (simp add: getPelmIntervals_def getRequest_def new_Date_def valid_time_value_def s v
          num_to_string_zero example_world_simps new_requests_def)
qed

text \<open>An invalid date is sent as \<open>"0"\<close>, like an absent one.\<close>

lemma invalid_date:
  "\<not> valid_time_value ms \<Longrightarrow>
   \<exists>r. new_requests w (snd (getPelmIntervals net a t (Some (new_Date ms)) None w)) = [r]
     \<and> header_value r ''start_date'' = Some (Str ''0'')"
  by (simp add: getPelmIntervals_def getRequest_def header_value_def num_to_string_zero new_Date_def)

text \<open>
  Claim C9, as the code has it. Every call of \<open>getPelmIntervals\<close> issues one request,
  a GET to the \<open>/intervals\<close> endpoint with no body and no query string;
  \<open>account_id\<close>, \<open>start_date\<close> and \<open>end_date\<close> are request headers, next to the
  Bearer authorization and the two credential headers.
\<close>

theorem getPelmIntervals_request_shape:
  "\<exists>r s e. new_requests w (snd (getPelmIntervals net a t sd ed w)) = [r]
     \<and> http_method r = ''GET'' \<and> url r = ''https://api.pelm.com/intervals''
     \<and> payload_names r = []
     \<and> header_value r ''account_id'' = Some (Str a)
     \<and> header_value r ''start_date'' = Some (Str s)
     \<and> header_value r ''end_date'' = Some (Str e)
     \<and> header_value r ''authorization'' = Some (Str (''Bearer '' @ t))
     \<and> header_value r ''pelm-client-id'' = Some (pelmClientId w)
     \<and> header_value r ''pelm-secret'' = Some (pelmSecret w)"
  by (simp add: getPelmIntervals_def getRequest_def header_value_def payload_names_def body_fields_def query_fields_def Let_def)

text \<open>
  Claim C9 as stated fails: the request of this call has no body field and no query
  field at all.
\<close>

theorem getPelmIntervals_fields_not_in_payload:
  "new_requests example_world
       (snd (getPelmIntervals example_net ''acct-1'' ''tok'' None None example_world)) =
     [\<lparr>http_method = ''GET'', url = ''https://api.pelm.com/intervals'',
       headers = [(''account_id'', Str ''acct-1''), (''start_date'', Str ''0''), (''end_date'', Str ''0''),
                  (''authorization'', Str ''Bearer tok''),
                  (''pelm-client-id'', Str ''client-1''), (''pelm-secret'', Str ''secret-1'')],
       body = None\<rparr>]
   \<and> payload_names
        \<lparr>http_method = ''GET'', url = ''https://api.pelm.com/intervals'',
         headers = [(''account_id'', Str ''acct-1''), (''start_date'', Str ''0''), (''end_date'', Str ''0''),
                    (''authorization'', Str ''Bearer tok''),
                    (''pelm-client-id'', Str ''client-1''), (''pelm-secret'', Str ''secret-1'')],
         body = None\<rparr> = []"
  by (simp add: getPelmIntervals_def getRequest_def num_to_string_zero example_world_simps
        new_requests_def payload_names_def body_fields_def query_fields_def)

section \<open>Bill PDFs: order and failure\<close>

lemma those_Some_nth: "those vals = Some vs \<Longrightarrow> vals = map Some vs"
  by (induction vals arbitrary: vs) (auto split: option.splits)

lemma those_map_Some: "those (map Some vs) = Some vs"
  by (induction vs) simp_all

lemma those_None_slot: "i < length vals \<Longrightarrow> vals ! i = None \<Longrightarrow> those vals = None"
proof (cases "those vals")
  case None then show ?thesis by simp
next
  case (Some vs)
  assume "i < length vals" "vals ! i = None"
  with those_Some_nth [OF Some] show ?thesis by auto
qed

lemma Promise_all_fulfils:
  assumes len: "length vals = length outs"
    and ok: "\<forall>j<length outs. outs ! j = Inr (resp j)"
    and filled: "\<forall>j<length outs. vals ! j = None \<or> vals ! j = Some (resp j)"
    and pending: "\<forall>j<length outs. vals ! j = None \<longrightarrow> j \<in> set arrivals"
  shows "Promise_all outs vals arrivals = Some (Inr (map resp [0..<length outs]))"
  using len filled pending
proof (induction arrivals arbitrary: vals)
  case Nil
  have a: "vals ! j = Some (resp j)" if "j < length outs" for j
  proof -
    from Nil.prems(3) that have "vals ! j \<noteq> None" by simp
    moreover from Nil.prems(2) that have "vals ! j = None \<or> vals ! j = Some (resp j)" by simp
    ultimately show ?thesis by auto
  qed
  have "vals = map Some (map resp [0..<length outs])"
    by (rule nth_equalityI) (simp_all add: Nil.prems(1) a)
  then have "those vals = Some (map resp [0..<length outs])"
    by (simp only: those_map_Some)
  then show ?case by simp
next
  case (Cons i arrivals)
  show ?case
  proof (cases "those vals")
    case (Some vs)
    from those_Some_nth [OF Some] have v: "vals = map Some vs" .
    with Cons.prems(1) have l: "length vs = length outs" by simp
    have "vs ! j = resp j" if "j < length outs" for j
    proof -
      from v l that have "vals ! j = Some (vs ! j)" by simp
      moreover from Cons.prems(2) that have "vals ! j = None \<or> vals ! j = Some (resp j)" by simp
      ultimately show ?thesis by auto
    qed
    with l have "vs = map resp [0..<length outs]"
      by (intro nth_equalityI) simp_all
    with Some show ?thesis by simp
  next
    case None
    show ?thesis
    proof (cases "i < length outs")
      case True
      with ok have o: "outs ! i = Inr (resp i)" by simp
      let ?vals = "vals[i := Some (resp i)]"
      have same: "?vals ! j = vals ! j" if "j \<noteq> i" for j
        using that by simp
      have here: "?vals ! i = Some (resp i)"
        using True Cons.prems(1) by simp
      have "Promise_all outs ?vals arrivals = Some (Inr (map resp [0..<length outs]))"
      proof (rule Cons.IH)
        show "length ?vals = length outs" using Cons.prems(1) by simp
        show "\<forall>j<length outs. ?vals ! j = None \<or> ?vals ! j = Some (resp j)"
        proof (intro allI impI)
          fix j assume j: "j < length outs"
          show "?vals ! j = None \<or> ?vals ! j = Some (resp j)"
          proof (cases "j = i")
            case True
            with here show ?thesis by simp
          next
            case False
            from Cons.prems(2) j have "vals ! j = None \<or> vals ! j = Some (resp j)" by simp
            with same [OF False] show ?thesis by simp
          qed
        qed
        show "\<forall>j<length outs. ?vals ! j = None \<longrightarrow> j \<in> set arrivals"
        proof (intro allI impI)
          fix j assume j: "j < length outs" and n: "?vals ! j = None"
          from n here have ne: "j \<noteq> i" by auto
          with n same have "vals ! j = None" by simp
          with Cons.prems(3) j have "j \<in> set (i # arrivals)" by simp
          with ne show "j \<in> set arrivals" by simp
        qed
      qed
      with None True o show ?thesis by simp
    next
      case False
      have "Promise_all outs vals arrivals = Some (Inr (map resp [0..<length outs]))"
      proof (rule Cons.IH)
        show "length vals = length outs" by (rule Cons.prems(1))
        show "\<forall>j<length outs. vals ! j = None \<or> vals ! j = Some (resp j)" by (rule Cons.prems(2))
        show "\<forall>j<length outs. vals ! j = None \<longrightarrow> j \<in> set arrivals"
        proof (intro allI impI)
          fix j assume j: "j < length outs" and n: "vals ! j = None"
          from j False have ne: "j \<noteq> i" by auto
          from Cons.prems(3) j n have "j \<in> set (i # arrivals)" by simp
          with ne show "j \<in> set arrivals" by simp
        qed
      qed
      with None False show ?thesis by simp
    qed
  qed
qed

lemma Promise_all_rejects:
  assumes "length vals = length outs" and "i < length outs" and "outs ! i = Inl e"
    and "vals ! i = None" and "i \<in> set arrivals"
  shows "\<exists>e'. Promise_all outs vals arrivals = Some (Inl e')"
  using assms
proof (induction arrivals arbitrary: vals)
  case Nil
  then show ?case by simp
next
  case (Cons a arrivals)
  from Cons.prems have none: "those vals = None" by (simp add: those_None_slot)
  show ?case
  proof (cases "a < length outs")
    case True
    show ?thesis
    proof (cases "outs ! a")
      case (Inl e')
      with none True show ?thesis by simp
    next
      case (Inr v)
      with Cons.prems have ne: "a \<noteq> i" by auto
      have "\<exists>e'. Promise_all outs (vals[a := Some v]) arrivals = Some (Inl e')"
        using Cons.prems ne by (intro Cons.IH) auto
      with none True Inr show ?thesis by simp
    qed
  next
    case False
    with Cons.prems have ne: "a \<noteq> i" by auto
    have "\<exists>e'. Promise_all outs vals arrivals = Some (Inl e')"
      using Cons.prems ne by (intro Cons.IH) auto
    with none False show ?thesis by simp
  qed
qed

lemma pdf_request_issued [simp]: "pdf_request (w\<lparr>issued := rs\<rparr>) tok b = pdf_request w tok b"
  by (simp add: pdf_request_def)

lemma callback_run:
  "getRequest net (''https://api.pelm.com/bills/'' @ b @ ''/pdf'')
     [(''accept'', Str ''application/pdf''),
      (''authorization'', Str (''Bearer '' @ tok)),
      (''pelm-client-id'', pelmClientId w),
      (''pelm-secret'', pelmSecret w)] w =
   (net (length (issued w)) (pdf_request w tok b), w\<lparr>issued := issued w @ [pdf_request w tok b]\<rparr>)"
  by (simp add: getRequest_def fetch_start_def pdf_request_def)

lemma map_callbacks_Cons:
  "map_callbacks net tok (b # ids) w =
     (case map_callbacks net tok ids (w\<lparr>issued := issued w @ [pdf_request w tok b]\<rparr>) of
        (outs, w2) \<Rightarrow> (net (length (issued w)) (pdf_request w tok b) # outs, w2))"
  unfolding map_callbacks.simps callback_run by simp

lemma map_callbacks_run:
  "map_callbacks net tok ids w =
     (map (\<lambda>i. net (length (issued w) + i) (pdf_request w tok (ids ! i))) [0..<length ids],
      w\<lparr>issued := issued w @ map (pdf_request w tok) ids\<rparr>)"
proof (induction ids arbitrary: w)
  case Nil
  then show ?case by simp
next
  case (Cons b ids)
  show ?case
    by (simp add: map_callbacks_Cons Cons.IH map_upt_Suc del: map_callbacks.simps upt_Suc)
qed

text \<open>
  Claim C5. For every access token and list of bill ids whose requests all succeed,
  \<open>getBillPdfs\<close> issues one request per id, in the order of the ids, and returns the
  list whose \<open>i\<close>-th element is the response to the request for the \<open>i\<close>-th id,
  whatever the order in which the responses arrive.
\<close>

theorem getBillPdfs_input_order:
  assumes "\<forall>i<length ids. net (length (issued w) + i) (pdf_request w tok (ids ! i)) = Inr (resp i)"
    and "\<forall>i<length ids. i \<in> set arrivals"
  shows "getBillPdfs net arrivals tok ids w =
           (Some (Inr (map resp [0..<length ids])), w\<lparr>issued := issued w @ map (pdf_request w tok) ids\<rparr>)"
proof -
  let ?outs = "map (\<lambda>i. net (length (issued w) + i) (pdf_request w tok (ids ! i))) [0..<length ids]"
  have "Promise_all ?outs (replicate (length ?outs) None) arrivals = Some (Inr (map resp [0..<length ?outs]))"
    using assms by (intro Promise_all_fulfils) auto
  then show ?thesis by (simp add: getBillPdfs_def map_callbacks_run)
qed

theorem getBillPdfs_input_order_witness:
  "fst (getBillPdfs echo_net [2, 0, 1] ''tok'' [''a'', ''b'', ''c''] example_world) =
     Some (Inr [Str ''https://api.pelm.com/bills/a/pdf'',
                Str ''https://api.pelm.com/bills/b/pdf'',
                Str ''https://api.pelm.com/bills/c/pdf''])"
proof -
  let ?ids = "[''a'', ''b'', ''c'']"
  let ?resp = "\<lambda>i. Str (url (pdf_request example_world ''tok'' (?ids ! i)))"
  have h1: "\<forall>i<length ?ids. echo_net (length (issued example_world) + i)
              (pdf_request example_world ''tok'' (?ids ! i)) = Inr (?resp i)"
    by (simp add: echo_net_def)
  have h2: "\<forall>i<length ?ids. i \<in> set [2, 0, 1]"
    by auto
  have m: "map ?resp [0..<length ?ids] =
      [Str ''https://api.pelm.com/bills/a/pdf'', Str ''https://api.pelm.com/bills/b/pdf'',
       Str ''https://api.pelm.com/bills/c/pdf'']"
    by (simp add: pdf_request_def upt_rec)
  from getBillPdfs_input_order [where net = echo_net and w = example_world and tok = "''tok''" and ids = ?ids
             and resp = ?resp and arrivals = "[2, 0, 1]", OF h1 h2]
  show ?thesis
    unfolding m by simp
qed

text \<open>
  Claim C6. For every list of bill ids, if one of the requests of \<open>getBillPdfs\<close> is
  rejected, the whole call is rejected: no list of PDFs is returned, not a partial one
  either.
\<close>

theorem getBillPdfs_fails_as_a_whole:
  assumes "i < length ids"
    and "net (length (issued w) + i) (pdf_request w tok (ids ! i)) = Inl e"
    and "i \<in> set arrivals"
  shows "\<exists>e'. fst (getBillPdfs net arrivals tok ids w) = Some (Inl e')"
proof -
  let ?outs = "map (\<lambda>i. net (length (issued w) + i) (pdf_request w tok (ids ! i))) [0..<length ids]"
  have "\<exists>e'. Promise_all ?outs (replicate (length ?outs) None) arrivals = Some (Inl e')"
    using assms by (intro Promise_all_rejects) auto
  then show ?thesis by (simp add: getBillPdfs_def map_callbacks_run)
qed

theorem getBillPdfs_fails_as_a_whole_witness:
  "\<exists>e'. fst (getBillPdfs flaky_net [2, 0, 1] ''tok'' [''a'', ''b'', ''c''] example_world) = Some (Inl e')"
proof -
  have h1: "1 < length [''a'', ''b'', ''c'']" by simp
  have h2: "flaky_net (length (issued example_world) + 1)
              (pdf_request example_world ''tok'' ([''a'', ''b'', ''c''] ! 1)) = Inl (FetchError ''socket hang up'')"
    by (simp add: flaky_net_def example_world_simps)
  have h3: "1 \<in> set [2, 0, 1::nat]" by simp
  from getBillPdfs_fails_as_a_whole [where i = 1 and ids = "[''a'', ''b'', ''c'']" and net = flaky_net and w = example_world
             and tok = "''tok''" and arrivals = "[2, 0, 1]", OF h1 h2 h3]
  show ?thesis .
qed

lemma flaky_example:
  "fst (getBillPdfs flaky_net [2, 0, 1] ''tok'' [''a'', ''b'', ''c''] example_world)
     = Some (Inl (FetchError ''socket hang up''))"
  by (simp add: getBillPdfs_def map_callbacks_run flaky_net_def example_world_simps upt_rec)

text \<open>
  Claim C10. For every access token, \<open>getBillPdfs\<close> called with no bill id issues no
  HTTP request and returns the empty list; it does not fail.
\<close>

theorem getBillPdfs_empty: "getBillPdfs net arrivals tok [] w = (Some (Inr []), w)"
  by (cases arrivals) (simp_all add: getBillPdfs_def)

section \<open>Credential headers\<close>

lemma getPelmAccounts_snd:
  "snd (getPelmAccounts net t w) =
     w\<lparr>issued := issued w @
        [\<lparr>http_method = ''GET'', url = ''https://api.pelm.com/accounts'',
          headers = [(''Authorization'', Str (''Bearer '' @ t)),
                     (''Pelm-Client-Id'', pelmClientId w), (''Pelm-Secret'', pelmSecret w)],
          body = None\<rparr>]\<rparr>"
  by (simp add: getPelmAccounts_def getRequest_def)

lemma getBillsPelm_snd:
  "snd (getBillsPelm net t w) =
     w\<lparr>issued := issued w @
        [\<lparr>http_method = ''GET'', url = ''https://api.pelm.com/bills'',
          headers = [(''Authorization'', Str (''Bearer '' @ t)),
                     (''Pelm-Client-Id'', pelmClientId w), (''Pelm-Secret'', pelmSecret w)],
          body = None\<rparr>]\<rparr>"
  by (simp add: getBillsPelm_def getRequest_def)

lemma getBillPdfs_snd:
  "snd (getBillPdfs net arrivals t ids w) = w\<lparr>issued := issued w @ map (pdf_request w t) ids\<rparr>"
  by (simp add: getBillPdfs_def map_callbacks_run)

text \<open>What each step of the pipeline leaves: the world as it was, or one request more.\<close>

lemma getAuthCode_world:
  "snd (getAuthCode enc net pc un pw ct w) = w
   \<or> (\<exists>str. snd (getAuthCode enc net pc un pw ct w) = w\<lparr>issued := issued w @ [connect_request pc un pw str]\<rparr>)"
proof (cases "to_string ct")
  case (Inl e)
  then show ?thesis by (simp add: getAuthCode_throws)
next
  case (Inr str)
  then have "snd (getAuthCode enc net pc un pw ct w) = w\<lparr>issued := issued w @ [connect_request pc un pw str]\<rparr>"
    by (simp add: getAuthCode_run)
  then show ?thesis by blast
qed

lemma getAccessToken_world:
  "snd (getAccessToken enc net ac w) = w
   \<or> (\<exists>r. snd (getAccessToken enc net ac w) = w\<lparr>issued := issued w @ [r]\<rparr>
          \<and> url r = ''https://api.pelm.com/auth/token''
          \<and> headers r = [(''accept'', Str ''application/json''),
                          (''pelm-client-id'', pelmClientId w), (''pelm-secret'', pelmSecret w)])"
proof (cases "append_fields enc [] [(''code'', ac)]")
  case (Inl e)
  then show ?thesis by (simp add: getAccessToken_def andThen_def postRequest_def)
next
  case (Inr formData)
  let ?r = "\<lparr>http_method = ''POST'', url = ''https://api.pelm.com/auth/token'',
             headers = [(''accept'', Str ''application/json''),
                        (''pelm-client-id'', pelmClientId w), (''pelm-secret'', pelmSecret w)],
             body = Some formData\<rparr>"
  from Inr have "snd (getAccessToken enc net ac w) = w\<lparr>issued := issued w @ [?r]\<rparr>"
    by (simp add: getAccessToken_def andThen_def postRequest_def fetch_start_def settle_def
          split: sum.splits)
  then show ?thesis by (intro disjI2 exI [of _ ?r]) simp
qed

lemma connect_request_policy: "credential_policy cid sec (connect_request pc un pw str)"
  by (simp add: credential_policy_def connect_request_def header_value_def)

lemma connect_token_request_policy:
  "pelmClientId w = Str cid \<Longrightarrow> pelmSecret w = Str sec \<Longrightarrow>
   carries_credentials cid sec (connect_token_request w u)
   \<and> credential_policy cid sec (connect_token_request w u)"
  by (simp add: credential_policy_def carries_credentials_def connect_token_request_def header_value_def)

lemma token_endpoint_policy:
  assumes "url r = ''https://api.pelm.com/auth/token''"
    and "headers r = [(''accept'', Str ''application/json''), (''pelm-client-id'', Str cid), (''pelm-secret'', Str sec)]"
  shows "carries_credentials cid sec r \<and> credential_policy cid sec r"
  using assms by (simp add: credential_policy_def carries_credentials_def header_value_def)

lemma getAccessToken_policy:
  assumes "pelmClientId w = Str cid" and "pelmSecret w = Str sec"
  shows "list_all (carries_credentials cid sec) (new_requests w (snd (getAccessToken enc net ac w)))"
    and "list_all (credential_policy cid sec) (new_requests w (snd (getAccessToken enc net ac w)))"
  using getAccessToken_world [of enc net ac w] token_endpoint_policy [of _ cid sec] assms
  by auto

lemma getAuthCode_policy:
  "list_all (\<lambda>r. url r = ''https://api.pelm.com/connect'' \<and> credential_policy cid sec r)
     (new_requests w (snd (getAuthCode enc net pc un pw ct w)))"
  using getAuthCode_world [of enc net pc un pw ct w] connect_request_policy [of cid sec pc un pw]
  by (auto simp: connect_request_def)

lemma andThen_Inl: "m w = (Inl e, w') \<Longrightarrow> andThen m f w = (Inl e, w')"
  by (simp add: andThen_def)

lemma andThen_Inr: "m w = (Inr v, w') \<Longrightarrow> andThen m f w = f v w'"
  by (simp add: andThen_def)

lemma snd_andThen_resolve: "snd (andThen m resolve w) = snd (m w)"
  by (simp add: andThen_def resolve_def split: prod.splits sum.splits)

text \<open>
  The composite operation runs its steps one after the other, each in the world the
  step before left; a step that fails ends it.
\<close>

lemma getOrCreatePelmToken_world:
  "\<exists>rs. snd (getOrCreatePelmToken enc net pc u un pw w) = w\<lparr>issued := issued w @ rs\<rparr>
      \<and> (pelmClientId w = Str cid \<longrightarrow> pelmSecret w = Str sec \<longrightarrow> list_all (credential_policy cid sec) rs)"
proof -
  let ?q1 = "connect_token_request w u"
  let ?w1 = "w\<lparr>issued := issued w @ [?q1]\<rparr>"
  let ?goal = "\<lambda>w'. \<exists>rs. w' = w\<lparr>issued := issued w @ rs\<rparr>
      \<and> (pelmClientId w = Str cid \<longrightarrow> pelmSecret w = Str sec \<longrightarrow> list_all (credential_policy cid sec) rs)"
  have one: "?goal ?w1"
    using connect_token_request_policy [of w cid sec u] by (intro exI [of _ "[?q1]"]) simp
  obtain r1 where s1: "getConnectToken enc net u w = (r1, ?w1)"
    by (simp add: getConnectToken_run)
  show ?thesis
  proof (cases r1)
    case (Inl e)
    with s1 have "getOrCreatePelmToken enc net pc u un pw w = (Inl e, ?w1)"
      by (simp add: getOrCreatePelmToken_def andThen_Inl)
    with one show ?thesis by simp
  next
    case ct: (Inr ct)
    show ?thesis
    proof (cases "to_string ct")
      case (Inl e)
      then have "getAuthCode enc net pc un pw ct ?w1 = (Inl e, ?w1)"
        by (rule getAuthCode_throws)
      with s1 ct have "getOrCreatePelmToken enc net pc u un pw w = (Inl e, ?w1)"
        by (simp add: getOrCreatePelmToken_def andThen_Inl andThen_Inr)
      with one show ?thesis by simp
    next
      case (Inr str)
      let ?q2 = "connect_request pc un pw str"
      let ?w2 = "w\<lparr>issued := issued w @ [?q1, ?q2]\<rparr>"
      have two: "?goal ?w2"
        using connect_token_request_policy [of w cid sec u] connect_request_policy [of cid sec pc un pw str]
        by (intro exI [of _ "[?q1, ?q2]"]) simp
      obtain r2 where s2: "getAuthCode enc net pc un pw ct ?w1 = (r2, ?w2)"
        by (simp add: getAuthCode_run [OF Inr])
      show ?thesis
      proof (cases r2)
        case (Inl e)
        with s1 ct s2 have "getOrCreatePelmToken enc net pc u un pw w = (Inl e, ?w2)"
          by (simp add: getOrCreatePelmToken_def andThen_Inl andThen_Inr)
        with two show ?thesis by simp
      next
        case ac: (Inr ac)
        with s1 ct s2
        have final: "snd (getOrCreatePelmToken enc net pc u un pw w) = snd (getAccessToken enc net ac ?w2)"
          by (simp add: getOrCreatePelmToken_def andThen_Inr snd_andThen_resolve)
        from getAccessToken_world [of enc net ac ?w2]
        show ?thesis
        proof
          assume "snd (getAccessToken enc net ac ?w2) = ?w2"
          with final two show ?thesis by simp
        next
          assume "\<exists>r. snd (getAccessToken enc net ac ?w2) = ?w2\<lparr>issued := issued ?w2 @ [r]\<rparr>
                    \<and> url r = ''https://api.pelm.com/auth/token''
                    \<and> headers r = [(''accept'', Str ''application/json''),
                                    (''pelm-client-id'', pelmClientId ?w2), (''pelm-secret'', pelmSecret ?w2)]"
          then obtain r where
            w3: "snd (getAccessToken enc net ac ?w2) = w\<lparr>issued := issued w @ [?q1, ?q2, r]\<rparr>"
            and u: "url r = ''https://api.pelm.com/auth/token''"
            and h: "headers r = [(''accept'', Str ''application/json''),
                                 (''pelm-client-id'', pelmClientId w), (''pelm-secret'', pelmSecret w)]"
            by auto
          have "?goal (w\<lparr>issued := issued w @ [?q1, ?q2, r]\<rparr>)"
            using connect_token_request_policy [of w cid sec u] connect_request_policy [of cid sec pc un pw str]
              token_endpoint_policy [OF u, of cid sec] h
            by (intro exI [of _ "[?q1, ?q2, r]"]) simp
          with final w3 show ?thesis by simp
        qed
      qed
    qed
  qed
qed

lemma getOrCreatePelmToken_policy:
  assumes "pelmClientId w = Str cid" and "pelmSecret w = Str sec"
  shows "list_all (credential_policy cid sec) (new_requests w (snd (getOrCreatePelmToken enc net pc u un pw w)))"
  using getOrCreatePelmToken_world [of enc net pc u un pw w cid sec] assms by auto

lemma credentials_kept:
  "pelmClientId (snd (getConnectToken enc net u w)) = pelmClientId w \<and> pelmSecret (snd (getConnectToken enc net u w)) = pelmSecret w"
  "pelmClientId (snd (getAuthCode enc net pc un pw ct w)) = pelmClientId w \<and> pelmSecret (snd (getAuthCode enc net pc un pw ct w)) = pelmSecret w"
  "pelmClientId (snd (getAccessToken enc net ac w)) = pelmClientId w \<and> pelmSecret (snd (getAccessToken enc net ac w)) = pelmSecret w"
  "pelmClientId (snd (getOrCreatePelmToken enc net pc u un pw w)) = pelmClientId w \<and> pelmSecret (snd (getOrCreatePelmToken enc net pc u un pw w)) = pelmSecret w"
  "pelmClientId (snd (getPelmAccounts net t w)) = pelmClientId w \<and> pelmSecret (snd (getPelmAccounts net t w)) = pelmSecret w"
  "pelmClientId (snd (getBillsPelm net t w)) = pelmClientId w \<and> pelmSecret (snd (getBillsPelm net t w)) = pelmSecret w"
  "pelmClientId (snd (getBillPdfs net arrivals t ids w)) = pelmClientId w \<and> pelmSecret (snd (getBillPdfs net arrivals t ids w)) = pelmSecret w"
  "pelmClientId (snd (getPelmIntervals net a t sd ed w)) = pelmClientId w \<and> pelmSecret (snd (getPelmIntervals net a t sd ed w)) = pelmSecret w"
proof -
  show "pelmClientId (snd (getConnectToken enc net u w)) = pelmClientId w \<and> pelmSecret (snd (getConnectToken enc net u w)) = pelmSecret w"
    by (simp add: getConnectToken_run)
  show "pelmClientId (snd (getAuthCode enc net pc un pw ct w)) = pelmClientId w \<and> pelmSecret (snd (getAuthCode enc net pc un pw ct w)) = pelmSecret w"
    using getAuthCode_world [of enc net pc un pw ct w] by auto
  show "pelmClientId (snd (getAccessToken enc net ac w)) = pelmClientId w \<and> pelmSecret (snd (getAccessToken enc net ac w)) = pelmSecret w"
    using getAccessToken_world [of enc net ac w] by auto
  show "pelmClientId (snd (getOrCreatePelmToken enc net pc u un pw w)) = pelmClientId w \<and> pelmSecret (snd (getOrCreatePelmToken enc net pc u un pw w)) = pelmSecret w"
    using getOrCreatePelmToken_world [of enc net pc u un pw w "[]" "[]"] by auto
  show "pelmClientId (snd (getPelmAccounts net t w)) = pelmClientId w \<and> pelmSecret (snd (getPelmAccounts net t w)) = pelmSecret w"
    by (simp add: getPelmAccounts_snd)
  show "pelmClientId (snd (getBillsPelm net t w)) = pelmClientId w \<and> pelmSecret (snd (getBillsPelm net t w)) = pelmSecret w"
    by (simp add: getBillsPelm_snd)
  show "pelmClientId (snd (getBillPdfs net arrivals t ids w)) = pelmClientId w \<and> pelmSecret (snd (getBillPdfs net arrivals t ids w)) = pelmSecret w"
    by (simp add: getBillPdfs_snd)
  show "pelmClientId (snd (getPelmIntervals net a t sd ed w)) = pelmClientId w \<and> pelmSecret (snd (getPelmIntervals net a t sd ed w)) = pelmSecret w"
    by (simp add: getPelmIntervals_def getRequest_def)
qed

lemma after_factory_credentials:
  "after_factory cid sec w \<Longrightarrow> pelmClientId w = Str cid \<and> pelmSecret w = Str sec"
proof (induction rule: after_factory.induct)
  case (factory w)
  then show ?case by (simp add: PelmSDK_def)
qed (simp_all add: credentials_kept)

lemma pdf_request_credentials:
  "pelmClientId w = Str cid \<Longrightarrow> pelmSecret w = Str sec \<Longrightarrow> carries_credentials cid sec (pdf_request w t b)"
  by (simp add: carries_credentials_def pdf_request_def header_value_def)

text \<open>
  Claim C1, as the code has it. After the factory was called with a client id and a
  secret, every request issued by \<open>getConnectToken\<close>, \<open>getAccessToken\<close>,
  \<open>getPelmAccounts\<close>, \<open>getBillsPelm\<close>, \<open>getBillPdfs\<close> and \<open>getPelmIntervals\<close>
  carries the headers \<open>pelm-client-id\<close> and \<open>pelm-secret\<close> with these values; every
  request issued by \<open>getAuthCode\<close> goes to the connect endpoint and carries neither of
  the two headers; every request issued by \<open>getOrCreatePelmToken\<close> carries both headers
  with these values unless it goes to the connect endpoint, and then it carries neither.
\<close>

theorem credentials_attached_except_connect:
  assumes "after_factory cid sec w"
  shows "list_all (carries_credentials cid sec) (new_requests w (snd (getConnectToken enc net pelmUserId w)))
       \<and> list_all (carries_credentials cid sec) (new_requests w (snd (getAccessToken enc net authCode w)))
       \<and> list_all (carries_credentials cid sec) (new_requests w (snd (getPelmAccounts net token w)))
       \<and> list_all (carries_credentials cid sec) (new_requests w (snd (getBillsPelm net token w)))
       \<and> list_all (carries_credentials cid sec) (new_requests w (snd (getBillPdfs net arrivals token ids w)))
       \<and> list_all (carries_credentials cid sec)
             (new_requests w (snd (getPelmIntervals net accountId token startDate endDate w)))
       \<and> list_all (credential_policy cid sec)
             (new_requests w (snd (getOrCreatePelmToken enc net providerCode pelmUserId username password w)))
       \<and> list_all (\<lambda>r. url r = ''https://api.pelm.com/connect'' \<and> credential_policy cid sec r)
             (new_requests w (snd (getAuthCode enc net providerCode username password connectToken w)))"
proof -
  from after_factory_credentials [OF assms]
  have c: "pelmClientId w = Str cid" "pelmSecret w = Str sec" by simp_all
  have 1: "list_all (carries_credentials cid sec) (new_requests w (snd (getConnectToken enc net pelmUserId w)))"
    using connect_token_request_policy [OF c] by (simp add: getConnectToken_run)
  have 2: "list_all (carries_credentials cid sec) (new_requests w (snd (getAccessToken enc net authCode w)))"
    by (rule getAccessToken_policy [OF c])
  have 3: "list_all (carries_credentials cid sec) (new_requests w (snd (getPelmAccounts net token w)))"
    by (simp add: getPelmAccounts_snd carries_credentials_def header_value_def c)
  have 4: "list_all (carries_credentials cid sec) (new_requests w (snd (getBillsPelm net token w)))"
    by (simp add: getBillsPelm_snd carries_credentials_def header_value_def c)
  have 5: "list_all (carries_credentials cid sec) (new_requests w (snd (getBillPdfs net arrivals token ids w)))"
    by (simp add: getBillPdfs_snd list_all_iff pdf_request_credentials c)
  have 6: "list_all (carries_credentials cid sec)
             (new_requests w (snd (getPelmIntervals net accountId token startDate endDate w)))"
    by (simp add: getPelmIntervals_def getRequest_def carries_credentials_def header_value_def c)
  have 7: "list_all (credential_policy cid sec)
             (new_requests w (snd (getOrCreatePelmToken enc net providerCode pelmUserId username password w)))"
    by (rule getOrCreatePelmToken_policy [OF c])
  have 8: "list_all (\<lambda>r. url r = ''https://api.pelm.com/connect'' \<and> credential_policy cid sec r)
             (new_requests w (snd (getAuthCode enc net providerCode username password connectToken w)))"
    by (rule getAuthCode_policy)
  from 1 2 3 4 5 6 7 8 show ?thesis by blast
qed

theorem credentials_attached_except_connect_witness:
  "after_factory ''client-1'' ''secret-1'' example_world
   \<and> new_requests example_world
         (snd (getOrCreatePelmToken lenient_encoder example_net ''PGE'' ''user-1'' ''bob'' ''hunter2'' example_world))
       = [connect_token_request example_world ''user-1'',
          connect_request ''PGE'' ''bob'' ''hunter2'' ''ct-1'',
          token_request example_world ''ac-2'']
   \<and> list_all (credential_policy ''client-1'' ''secret-1'')
         (new_requests example_world
           (snd (getOrCreatePelmToken lenient_encoder example_net ''PGE'' ''user-1'' ''bob'' ''hunter2'' example_world)))"
proof -
  have n: "new_requests example_world
         (snd (getOrCreatePelmToken lenient_encoder example_net ''PGE'' ''user-1'' ''bob'' ''hunter2'' example_world))
       = [connect_token_request example_world ''user-1'',
          connect_request ''PGE'' ''bob'' ''hunter2'' ''ct-1'',
          token_request example_world ''ac-2'']"
    by (simp add: getOrCreatePelmToken_def andThen_def resolve_def getConnectToken_run getAuthCode_run
          getAccessToken_run example_net_def token_request_def)
  from credentials_attached_except_connect [OF after_factory_example, where enc = lenient_encoder
         and net = example_net and providerCode = "''PGE''" and pelmUserId = "''user-1''"
         and username = "''bob''" and password = "''hunter2''"]
    after_factory_example n
  show ?thesis by blast
qed

text \<open>
  Claim C1 as stated fails on \<open>getAuthCode\<close>: after the factory was called, its request
  carries neither credential header.
\<close>

theorem getAuthCode_request_without_credentials:
  "after_factory ''client-1'' ''secret-1'' example_world
   \<and> new_requests example_world
         (snd (getAuthCode lenient_encoder example_net ''PGE'' ''bob'' ''hunter2'' (Str ''ct-1'') example_world)) =
       [\<lparr>http_method = ''POST'', url = ''https://api.pelm.com/connect'',
         headers = [(''accept'', Str ''application/json''), (''authorization'', Str ''Bearer ct-1'')],
         body = Some [(''utility_id'', Str ''PGE''), (''username'', Str ''bob''),
                      (''password'', Str ''hunter2'')]\<rparr>]
   \<and> \<not> carries_credentials ''client-1'' ''secret-1''
         \<lparr>http_method = ''POST'', url = ''https://api.pelm.com/connect'',
          headers = [(''accept'', Str ''application/json''), (''authorization'', Str ''Bearer ct-1'')],
          body = Some [(''utility_id'', Str ''PGE''), (''username'', Str ''bob''),
                       (''password'', Str ''hunter2'')]\<rparr>"
  by (simp add: after_factory_example getAuthCode_run connect_request_def carries_credentials_def
        header_value_def)

end
